theory Spec2Isabelle
  imports Complex_Main
begin

section \<open>Data model of the probing service (main.go)\<close>

text \<open>
  A non-nil Go \<^verbatim>\<open>error\<close> is observed by the program only through \<^verbatim>\<open>err != nil\<close> and
  \<^verbatim>\<open>err.Error()\<close>, so it is modelled by its message; \<open>None\<close> is \<^verbatim>\<open>nil\<close>.
\<close>

type_synonym go_error = string

text \<open>
  The field \<^verbatim>\<open>Result any\<close> holds \<^verbatim>\<open>nil\<close>, the \<^verbatim>\<open>int\<close> of \<^verbatim>\<open>checkHTTP\<close> (or the literal 0)
  or the \<^verbatim>\<open>float64\<close> of \<^verbatim>\<open>checkPing\<close>. A finite \<^verbatim>\<open>float64\<close> is the rational it denotes.
\<close>

datatype any = AnyNil | AnyInt int | AnyFloat rat

record Response =
  Host :: string
  Type :: string
  Result :: any
  Error :: string

datatype json = JNull | JString string | JInt int | JFloat rat

type_synonym json_object = "(string \<times> json) list"

text \<open>
  \<^verbatim>\<open>concurrencyLimit chan struct{}\<close>: a buffered channel of capacity \<open>cap\<close> that holds
  \<open>held\<close> elements, one for each slot taken.
\<close>

record gate =
  cap :: nat
  held :: nat

text \<open>The three cases of the \<^verbatim>\<open>select\<close> statement of \<^verbatim>\<open>handleRequest\<close>.\<close>

datatype select_case = SendSlot | CtxDone | Default

text \<open>
  What the handler does to the outside, in program order: the calls on the
  \<^verbatim>\<open>http.ResponseWriter\<close>, the case the \<^verbatim>\<open>select\<close> ran, the deferred receive from the
  channel, the external process started and the HTTP request sent.
\<close>

datatype event =
    SetHeader string string
  | WriteHeader nat
  | Encode json_object
  | Select select_case
  | Release
  | Exec "string list"
  | HttpDo string string

text \<open>
  The inbound \<^verbatim>\<open>*http.Request\<close>: \<^verbatim>\<open>r.URL.Query()\<close> is a \<^verbatim>\<open>url.Values\<close>, a map from a key to
  its list of values (an absent key has the empty list); \<open>ctx_done\<close> tells whether
  \<^verbatim>\<open>r.Context().Done()\<close> is closed.
\<close>

record request =
  query :: "string \<Rightarrow> string list"
  ctx_done :: bool

text \<open>
  The Go runtime and standard library the program calls, taken as parameters:
  \<^item> \<open>CombinedOutput ctx argv\<close>: \<^verbatim>\<open>exec.CommandContext(ctx, argv...).CombinedOutput()\<close>;
  \<^item> \<open>ParseFloat s\<close>: \<^verbatim>\<open>strconv.ParseFloat(s, 64)\<close>;
  \<^item> \<open>FormatFloat v\<close>: the verb \<^verbatim>\<open>%v\<close> of \<^verbatim>\<open>fmt\<close> at a \<^verbatim>\<open>float64\<close>;
  \<^item> \<open>NewRequestWithContext ctx method url\<close>: \<open>None\<close> when the request is built;
  \<^item> \<open>ClientDo ctx method url\<close>: \<^verbatim>\<open>client.Do(req)\<close>, the status code of the response or
    the transport error.
\<close>

record env =
  CombinedOutput :: "bool \<Rightarrow> string list \<Rightarrow> string \<times> go_error option"
  ParseFloat :: "string \<Rightarrow> go_error + rat"
  FormatFloat :: "rat \<Rightarrow> string"
  NewRequestWithContext :: "bool \<Rightarrow> string \<Rightarrow> string \<Rightarrow> go_error option"
  ClientDo :: "bool \<Rightarrow> string \<Rightarrow> string \<Rightarrow> go_error + int"

section \<open>The regular expression of checkPing\<close>

text \<open>
  \<^verbatim>\<open>(?m)/(\d+\.\d+)/(\d+\.\d+)/\<close>. The flag \<^verbatim>\<open>(?m)\<close> changes only \<^verbatim>\<open>^\<close> and \<^verbatim>\<open>$\<close>, which
  the pattern does not use. \<^verbatim>\<open>\d\<close> is an ASCII digit. A run \<^verbatim>\<open>\d+\<close> is followed by a
  character that is no digit, so only the longest run can match.
\<close>

definition is_digit :: "char \<Rightarrow> bool" where
  "is_digit c = (c \<in> set ''0123456789'')"

text \<open>\<^verbatim>\<open>\d+\.\d+\<close> at the head of a string: the text matched and the rest.\<close>

definition match_number :: "string \<Rightarrow> (string \<times> string) option" where
  "match_number s =
     (let ip = takeWhile is_digit s in
      if ip = [] then None
      else (case dropWhile is_digit s of
              [] \<Rightarrow> None
            | c # r \<Rightarrow>
                if c \<noteq> CHR ''.'' then None
                else (let fp = takeWhile is_digit r in
                      if fp = [] then None
                      else Some (ip @ ''.'' @ fp, dropWhile is_digit r))))"

text \<open>The whole pattern at the head of a string: the two groups.\<close>

definition match_here :: "string \<Rightarrow> (string \<times> string) option" where
  "match_here s =
     (case s of
        [] \<Rightarrow> None
      | c # r \<Rightarrow>
          if c \<noteq> CHR ''/'' then None
          else (case match_number r of
                  None \<Rightarrow> None
                | Some (g1, r1) \<Rightarrow>
                    (case r1 of
                       [] \<Rightarrow> None
                     | c1 # r2 \<Rightarrow>
                         if c1 \<noteq> CHR ''/'' then None
                         else (case match_number r2 of
                                 None \<Rightarrow> None
                               | Some (g2, r3) \<Rightarrow>
                                   (case r3 of
                                      [] \<Rightarrow> None
                                    | c2 # _ \<Rightarrow>
                                        if c2 \<noteq> CHR ''/'' then None
                                        else Some (g1, g2))))))"

text \<open>
  \<^verbatim>\<open>re.FindStringSubmatch\<close>: the leftmost match as the list of the whole match and the
  two groups, or the empty list (\<^verbatim>\<open>nil\<close>) when there is none.
\<close>

fun FindStringSubmatch :: "string \<Rightarrow> string list" where
  "FindStringSubmatch [] = []"
| "FindStringSubmatch (c # cs) =
     (case match_here (c # cs) of
        Some (g1, g2) \<Rightarrow> [''/'' @ g1 @ ''/'' @ g2 @ ''/'', g1, g2]
      | None \<Rightarrow> FindStringSubmatch cs)"

text \<open>A decimal number as \<^verbatim>\<open>\d+\.\d+\<close> reads it: digits, a dot, digits.\<close>

definition is_decimal :: "string \<Rightarrow> bool" where
  "is_decimal s =
     (takeWhile is_digit s \<noteq> [] \<and>
      (case dropWhile is_digit s of
         [] \<Rightarrow> False
       | c # fp \<Rightarrow> c = CHR ''.'' \<and> fp \<noteq> [] \<and> list_all is_digit fp))"

section \<open>The probes\<close>

definition ping_argv :: "string \<Rightarrow> string list" where
  "ping_argv host = [''ping'', ''-c'', ''3'', ''-W'', ''2'', ''-q'', host]"

text \<open>
  \<^verbatim>\<open>checkPing\<close> returns the pair \<^verbatim>\<open>(float64, error)\<close> of the source; the first component
  here is the external command it ran.
\<close>

definition checkPing :: "env \<Rightarrow> bool \<Rightarrow> string \<Rightarrow> event list \<times> rat \<times> go_error option" where
  "checkPing e ctx host =
     (case CombinedOutput e ctx (ping_argv host) of
        (output, err) \<Rightarrow>
          ([Exec (ping_argv host)],
           if err \<noteq> None then (0, Some ''ping failed: host unreachable or timeout'')
           else (let matches = FindStringSubmatch output in
                 if length matches \<ge> 3 then
                   (case ParseFloat e (matches ! 2) of
                      Inl perr \<Rightarrow> (0, Some (''parse error: '' @ perr))
                    | Inr val \<Rightarrow>
                        if val \<le> 0 then (0, Some (''invalid ping result: '' @ FormatFloat e val))
                        else (val, None))
                 else (0, Some ''could not parse ping output''))))"

text \<open>\<^verbatim>\<open>strings.HasPrefix\<close> and \<^verbatim>\<open>strings.TrimPrefix\<close>.\<close>

definition HasPrefix :: "string \<Rightarrow> string \<Rightarrow> bool" where
  "HasPrefix s p = (take (length p) s = p)"

definition TrimPrefix :: "string \<Rightarrow> string \<Rightarrow> string" where
  "TrimPrefix s p = (if HasPrefix s p then drop (length p) s else s)"

definition http_url :: "string \<Rightarrow> string \<Rightarrow> string" where
  "http_url host scheme =
     scheme @ ''://'' @ TrimPrefix (TrimPrefix host ''http://'') ''https://''"

definition checkHTTP :: "env \<Rightarrow> bool \<Rightarrow> string \<Rightarrow> string \<Rightarrow> event list \<times> int \<times> go_error option" where
  "checkHTTP e ctx host scheme =
     (let url = http_url host scheme in
      case NewRequestWithContext e ctx ''HEAD'' url of
        Some err \<Rightarrow> ([], 0, Some err)
      | None \<Rightarrow>
          (case ClientDo e ctx ''HEAD'' url of
             Inl err \<Rightarrow> ([HttpDo ''HEAD'' url], 0, Some err)
           | Inr code \<Rightarrow> ([HttpDo ''HEAD'' url], code, None)))"

section \<open>The request handler\<close>

text \<open>\<^verbatim>\<open>url.Values.Get\<close>: the first value of the key, or the empty string.\<close>

definition Get :: "(string \<Rightarrow> string list) \<Rightarrow> string \<Rightarrow> string" where
  "Get v key = (case v key of [] \<Rightarrow> [] | x # _ \<Rightarrow> x)"

text \<open>\<^verbatim>\<open>json.Encode\<close> of \<^verbatim>\<open>map[string]string{"error": msg}\<close>, after \<^verbatim>\<open>WriteHeader\<close>.\<close>

definition sendError :: "nat \<Rightarrow> string \<Rightarrow> event list" where
  "sendError status msg = [WriteHeader status, Encode [(''error'', JString msg)]]"

definition json_of_any :: "any \<Rightarrow> json" where
  "json_of_any a = (case a of AnyNil \<Rightarrow> JNull | AnyInt i \<Rightarrow> JInt i | AnyFloat f \<Rightarrow> JFloat f)"

text \<open>
  \<^verbatim>\<open>json.Encode\<close> of a \<^verbatim>\<open>Response\<close>: the tags of the struct name the keys, and
  \<^verbatim>\<open>omitempty\<close> leaves \<^verbatim>\<open>error\<close> out when the string is empty.
\<close>

definition json_of_Response :: "Response \<Rightarrow> json_object" where
  "json_of_Response resp =
     [(''host'', JString (Host resp)), (''type'', JString (Type resp)),
      (''result'', json_of_any (Result resp))]
     @ (if Error resp = [] then [] else [(''error'', JString (Error resp))])"

text \<open>
  The \<^verbatim>\<open>select\<close> with a \<^verbatim>\<open>default\<close>: the send can proceed when the channel is not full,
  the receive from \<^verbatim>\<open>Done()\<close> when the context is cancelled. When no case can proceed
  the default runs; otherwise the runtime chooses one of those that can, which the
  number \<open>pick\<close> stands for.
\<close>

definition ready_cases :: "gate \<Rightarrow> bool \<Rightarrow> select_case list" where
  "ready_cases g dn =
     (if held g < cap g then [SendSlot] else []) @ (if dn then [CtxDone] else [])"

definition select_gate :: "nat \<Rightarrow> gate \<Rightarrow> bool \<Rightarrow> select_case" where
  "select_gate pick g dn =
     (let rs = ready_cases g dn in
      if rs = [] then Default else rs ! (pick mod length rs))"

text \<open>Step 4 of the handler: every value but \<^verbatim>\<open>http\<close> and \<^verbatim>\<open>https\<close> becomes \<^verbatim>\<open>ping\<close>.\<close>

definition select_method :: "string \<Rightarrow> string" where
  "select_method m = (if m \<noteq> ''http'' \<and> m \<noteq> ''https'' then ''ping'' else m)"

text \<open>Step 5: the \<^verbatim>\<open>switch\<close> on the method.\<close>

definition execute :: "env \<Rightarrow> bool \<Rightarrow> string \<Rightarrow> string \<Rightarrow> event list \<times> any \<times> go_error option" where
  "execute e ctx method host =
     (if method = ''http'' then
        (case checkHTTP e ctx host ''http'' of (evs, code, err) \<Rightarrow> (evs, AnyInt code, err))
      else if method = ''https'' then
        (case checkHTTP e ctx host ''https'' of (evs, code, err) \<Rightarrow> (evs, AnyInt code, err))
      else
        (case checkPing e ctx host of (evs, val, err) \<Rightarrow> (evs, AnyFloat val, err)))"

text \<open>Step 6: the \<^verbatim>\<open>Response\<close> built from the outcome of the probe.\<close>

definition build_response :: "string \<Rightarrow> string \<Rightarrow> any \<Rightarrow> go_error option \<Rightarrow> Response" where
  "build_response host method result err =
     (let resp = \<lparr>Host = host, Type = method, Result = AnyNil, Error = []\<rparr> in
      case err of
        Some msg \<Rightarrow> resp\<lparr>Error := msg, Result := AnyInt 0\<rparr>
      | None \<Rightarrow> resp\<lparr>Result := result\<rparr>)"

text \<open>
  \<^verbatim>\<open>handleRequest\<close>, with the global \<^verbatim>\<open>apiKey\<close> as a parameter and the global channel as
  the state: the events of the call and the channel when it returns. The deferred
  receive runs last on the admitted path.
\<close>

definition handleRequest :: "env \<Rightarrow> string \<Rightarrow> nat \<Rightarrow> request \<Rightarrow> gate \<Rightarrow> event list \<times> gate" where
  "handleRequest e apiKey pick r g =
     (let hdr = SetHeader ''Content-Type'' ''application/json'';
          userKey = Get (query r) ''key'' in
      if apiKey \<noteq> [] \<and> userKey \<noteq> apiKey then (hdr # sendError 403 ''Auth failed'', g)
      else (let host = Get (query r) ''host'' in
        if host = [] then (hdr # sendError 400 ''host required'', g)
        else (case select_gate pick g (ctx_done r) of
                CtxDone \<Rightarrow> ([hdr, Select CtxDone], g)
              | Default \<Rightarrow>
                  (hdr # Select Default
                     # sendError 503 ''Server is too busy, try again later'', g)
              | SendSlot \<Rightarrow>
                  (let g1 = g\<lparr>held := held g + 1\<rparr>;
                       method = select_method (Get (query r) ''method'') in
                   case execute e (ctx_done r) method host of
                     (pevs, result, err) \<Rightarrow>
                       ([hdr, Select SendSlot] @ pevs
                          @ [Encode (json_of_Response (build_response host method result err)),
                             Release],
                        g1\<lparr>held := held g1 - 1\<rparr>)))))"

section \<open>Observations on a run of the handler\<close>

text \<open>
  The status line of the response: the first \<^verbatim>\<open>WriteHeader\<close>, or 200 when the body is
  written with no \<^verbatim>\<open>WriteHeader\<close> before it (net/http); none when the handler writes
  nothing.
\<close>

fun status_of :: "event list \<Rightarrow> nat option" where
  "status_of [] = None"
| "status_of (WriteHeader n # _) = Some n"
| "status_of (Encode _ # _) = Some 200"
| "status_of (_ # evs) = status_of evs"

fun body_of :: "event list \<Rightarrow> json_object option" where
  "body_of [] = None"
| "body_of (Encode b # _) = Some b"
| "body_of (_ # evs) = body_of evs"

fun is_probe :: "event \<Rightarrow> bool" where
  "is_probe (Exec _) = True"
| "is_probe (HttpDo _ _) = True"
| "is_probe _ = False"

fun is_gate :: "event \<Rightarrow> bool" where
  "is_gate (Select _) = True"
| "is_gate Release = True"
| "is_gate _ = False"



abbreviation content_type :: event where
  "content_type \<equiv> SetHeader ''Content-Type'' ''application/json''"


definition field :: "json_object \<Rightarrow> string \<Rightarrow> json option" where
  "field b k = map_of b k"


section \<open>Sample runs\<close>

text \<open>
  The value of a decimal \<^verbatim>\<open>digits.digits\<close>. It is the \<^verbatim>\<open>float64\<close> that
  \<^verbatim>\<open>strconv.ParseFloat\<close> returns wherever that value is a binary fraction, as 2.5 and
  0.0 are; the sample runs use such numbers only.
\<close>

definition digit_val :: "char \<Rightarrow> nat" where
  "digit_val c = of_char c - 48"

definition digits_val :: "string \<Rightarrow> nat" where
  "digits_val ds = foldl (\<lambda>n c. 10 * n + digit_val c) 0 ds"

definition decimal_value :: "string \<Rightarrow> rat" where
  "decimal_value s =
     (let ip = takeWhile is_digit s; fp = drop 1 (dropWhile is_digit s) in
      of_nat (digits_val ip) + of_nat (digits_val fp) / 10 ^ length fp)"

text \<open>
  A run in which the utility exits with status 0 after printing \<open>output\<close>, and the
  HTTP responder answers with the status \<open>code\<close>. The only value that \<^verbatim>\<open>checkPing\<close>
  formats in such a run is 0, which \<^verbatim>\<open>%v\<close> prints as \<^verbatim>\<open>0\<close>.
\<close>

definition up_env :: "string \<Rightarrow> int \<Rightarrow> env" where
  "up_env output code =
     \<lparr>CombinedOutput = (\<lambda>ctx argv. (output, None)),
      ParseFloat = (\<lambda>s. Inr (decimal_value s)),
      FormatFloat = (\<lambda>v. ''0''),
      NewRequestWithContext = (\<lambda>ctx method url. None),
      ClientDo = (\<lambda>ctx method url. Inr code)\<rparr>"

text \<open>
  A run in which the utility exits with status 1, or is not started when the context is
  already cancelled, and no connection is made.
\<close>

definition down_env :: env where
  "down_env =
     \<lparr>CombinedOutput =
        (\<lambda>ctx argv. ([], Some (if ctx then ''context canceled'' else ''exit status 1''))),
      ParseFloat = (\<lambda>s. Inr (decimal_value s)),
      FormatFloat = (\<lambda>v. ''0''),
      NewRequestWithContext = (\<lambda>ctx method url. None),
      ClientDo = (\<lambda>ctx method url. Inl ''connection refused'')\<rparr>"

text \<open>\<^verbatim>\<open>url.Values\<close> of a query given as its pairs, and a request with that query.\<close>

definition values_of :: "(string \<times> string) list \<Rightarrow> string \<Rightarrow> string list" where
  "values_of kvs k = map snd (filter (\<lambda>p. fst p = k) kvs)"

definition req :: "(string \<times> string) list \<Rightarrow> bool \<Rightarrow> request" where
  "req kvs dn = \<lparr>query = values_of kvs, ctx_done = dn\<rparr>"

text \<open>The summary that iputils \<^verbatim>\<open>ping -q\<close> prints.\<close>

definition linux_summary :: string where
  "linux_summary = ''rtt min/avg/max/mdev = 0.125/0.250/0.500/0.125 ms''"

text \<open>The summary of the BusyBox \<^verbatim>\<open>ping\<close>: three numbers with two slashes between them.\<close>

definition busybox_summary :: string where
  "busybox_summary = ''round-trip min/avg/max = 0.125/0.250/0.500 ms''"

section \<open>The handler, path by path\<close>

lemma handleRequest_forbidden:
  assumes "apiKey \<noteq> []" and "Get (query r) ''key'' \<noteq> apiKey"
  shows "handleRequest e apiKey pick r g =
    ([content_type, WriteHeader 403, Encode [(''error'', JString ''Auth failed'')]], g)"
  using assms by (simp add: handleRequest_def sendError_def)

lemma handleRequest_no_host:
  assumes "apiKey = [] \<or> Get (query r) ''key'' = apiKey" and "Get (query r) ''host'' = []"
  shows "handleRequest e apiKey pick r g =
    ([content_type, WriteHeader 400, Encode [(''error'', JString ''host required'')]], g)"
  using assms by (auto simp add: handleRequest_def sendError_def)

lemma handleRequest_busy:
  assumes "apiKey = [] \<or> Get (query r) ''key'' = apiKey" and "Get (query r) ''host'' \<noteq> []"
    and "select_gate pick g (ctx_done r) = Default"
  shows "handleRequest e apiKey pick r g =
    ([content_type, Select Default, WriteHeader 503,
      Encode [(''error'', JString ''Server is too busy, try again later'')]], g)"
  using assms by (auto simp add: handleRequest_def sendError_def)

lemma handleRequest_abandoned:
  assumes "apiKey = [] \<or> Get (query r) ''key'' = apiKey" and "Get (query r) ''host'' \<noteq> []"
    and "select_gate pick g (ctx_done r) = CtxDone"
  shows "handleRequest e apiKey pick r g = ([content_type, Select CtxDone], g)"
  using assms by (auto simp add: handleRequest_def)

lemma handleRequest_admitted:
  assumes "apiKey = [] \<or> Get (query r) ''key'' = apiKey" and "Get (query r) ''host'' \<noteq> []"
    and "select_gate pick g (ctx_done r) = SendSlot"
    and "execute e (ctx_done r) (select_method (Get (query r) ''method'')) (Get (query r) ''host'')
           = (pevs, result, err)"
  shows "handleRequest e apiKey pick r g =
    ([content_type, Select SendSlot] @ pevs
       @ [Encode (json_of_Response
            (build_response (Get (query r) ''host'') (select_method (Get (query r) ''method''))
               result err)),
          Release], g)"
  using assms by (auto simp add: handleRequest_def Let_def)

lemma select_gate_full: "cap g \<le> held g \<Longrightarrow> \<not> dn \<Longrightarrow> select_gate pick g dn = Default"
  by (simp add: select_gate_def ready_cases_def)

lemma select_gate_full_done: "cap g \<le> held g \<Longrightarrow> dn \<Longrightarrow> select_gate pick g dn = CtxDone"
  by (simp add: select_gate_def ready_cases_def)

lemma select_gate_free: "held g < cap g \<Longrightarrow> \<not> dn \<Longrightarrow> select_gate pick g dn = SendSlot"
  by (simp add: select_gate_def ready_cases_def)

lemma select_gate_race:
  assumes "held g < cap g" and "dn"
  shows "select_gate pick g dn = (if even pick then SendSlot else CtxDone)"
proof (cases "even pick")
  case True
  then have "pick mod Suc (Suc 0) = 0"
    by (metis even_iff_mod_2_eq_zero numeral_2_eq_2)
  with assms True show ?thesis by (simp add: select_gate_def ready_cases_def)
next
  case False
  then have "pick mod Suc (Suc 0) = 1"
    by (metis odd_iff_mod_2_eq_one numeral_2_eq_2)
  with assms False show ?thesis by (simp add: select_gate_def ready_cases_def)
qed

lemma checkPing_events: "fst (checkPing e ctx h) = [Exec (ping_argv h)]"
  by (simp add: checkPing_def split: prod.splits)

lemma checkHTTP_events:
  "fst (checkHTTP e ctx h s) = [] \<or> fst (checkHTTP e ctx h s) = [HttpDo ''HEAD'' (http_url h s)]"
  by (simp add: checkHTTP_def Let_def split: option.splits sum.splits)

lemma execute_events:
  "fst (execute e ctx m h) = [] \<or> (\<exists>ev. fst (execute e ctx m h) = [ev] \<and> is_probe ev)"
proof -
  have "fst (execute e ctx m h) = fst (checkHTTP e ctx h ''http'') \<or>
        fst (execute e ctx m h) = fst (checkHTTP e ctx h ''https'') \<or>
        fst (execute e ctx m h) = fst (checkPing e ctx h)"
    by (simp add: execute_def split: prod.splits)
  then show ?thesis
    using checkHTTP_events [of e ctx h "''http''"] checkHTTP_events [of e ctx h "''https''"]
      checkPing_events [of e ctx h]
    by (elim disjE) auto
qed

lemma probe_events_silent:
  assumes "pevs = [] \<or> (\<exists>ev. pevs = [ev] \<and> is_probe ev)"
  shows "status_of (pevs @ evs) = status_of evs" and "body_of (pevs @ evs) = body_of evs"
    and "filter is_gate pevs = []"
proof -
  have a: "is_probe ev \<Longrightarrow> status_of (ev # evs) = status_of evs \<and> body_of (ev # evs) = body_of evs
      \<and> \<not> is_gate ev" for ev
    by (cases ev) simp_all
  from assms a show "status_of (pevs @ evs) = status_of evs" by auto
  from assms a show "body_of (pevs @ evs) = body_of evs" by auto
  from assms a show "filter is_gate pevs = []" by auto
qed

section \<open>Authorization, validation and admission\<close>

text \<open>
  C4. When a credential is configured (\<open>apiKey\<close> is not empty), a request whose \<open>key\<close>
  differs from it gets the status 403, no probe runs and the gate is not touched: the
  run has no probe event and no gate event, and the channel is unchanged. When no
  credential is configured, no request gets 403 and the run does not depend on the
  \<open>key\<close> supplied.
\<close>

theorem authorization:
  "(apiKey \<noteq> [] \<and> Get (query r) ''key'' \<noteq> apiKey \<longrightarrow>
      status_of (fst (handleRequest e apiKey pick r g)) = Some 403 \<and>
      filter is_probe (fst (handleRequest e apiKey pick r g)) = [] \<and>
      filter is_gate (fst (handleRequest e apiKey pick r g)) = [] \<and>
      snd (handleRequest e apiKey pick r g) = g) \<and>
   status_of (fst (handleRequest e [] pick r g)) \<noteq> Some 403 \<and>
   handleRequest e [] pick (r\<lparr>query := (query r)(''key'' := ks)\<rparr>) g
     = handleRequest e [] pick r g"
proof (intro conjI impI)
  assume a: "apiKey \<noteq> [] \<and> Get (query r) ''key'' \<noteq> apiKey"
  then have h: "handleRequest e apiKey pick r g =
    ([content_type, WriteHeader 403, Encode [(''error'', JString ''Auth failed'')]], g)"
    by (simp add: handleRequest_forbidden)
  show "status_of (fst (handleRequest e apiKey pick r g)) = Some 403" by (simp add: h)
  show "filter is_probe (fst (handleRequest e apiKey pick r g)) = []" by (simp add: h)
  show "filter is_gate (fst (handleRequest e apiKey pick r g)) = []" by (simp add: h)
  show "snd (handleRequest e apiKey pick r g) = g" by (simp add: h)
next
  show "status_of (fst (handleRequest e [] pick r g)) \<noteq> Some 403"
  proof (cases "Get (query r) ''host'' = []")
    case True
    then show ?thesis by (simp add: handleRequest_no_host)
  next
    case False
    obtain pevs result err where
      x: "execute e (ctx_done r) (select_method (Get (query r) ''method'')) (Get (query r) ''host'')
            = (pevs, result, err)"
      by (metis prod_cases3)
    have p: "pevs = [] \<or> (\<exists>ev. pevs = [ev] \<and> is_probe ev)"
      using execute_events [of e "ctx_done r" "select_method (Get (query r) ''method'')"
          "Get (query r) ''host''"] x by simp
    show ?thesis
    proof (cases "select_gate pick g (ctx_done r)")
      case SendSlot
      with False x show ?thesis
        by (simp add: handleRequest_admitted [where pevs = pevs] probe_events_silent(1) [OF p])
    next
      case CtxDone
      with False show ?thesis by (simp add: handleRequest_abandoned)
    next
      case Default
      with False show ?thesis by (simp add: handleRequest_busy)
    qed
  qed
next
  show "handleRequest e [] pick (r\<lparr>query := (query r)(''key'' := ks)\<rparr>) g
     = handleRequest e [] pick r g"
  proof -
    let ?r = "r\<lparr>query := (query r)(''key'' := ks)\<rparr>"
    have "Get (query ?r) ''host'' = Get (query r) ''host''"
      and "Get (query ?r) ''method'' = Get (query r) ''method''"
      and "ctx_done ?r = ctx_done r"
      by (simp_all add: Get_def)
    then show ?thesis
      unfolding handleRequest_def Let_def
      by (simp cong: select_case.case_cong)
  qed
qed

theorem authorization_witness:
  "''secret'' \<noteq> [] \<and>
   Get (query (req [(''key'', ''guess''), (''host'', ''example.com'')] False)) ''key'' \<noteq> ''secret'' \<and>
   status_of (fst (handleRequest (up_env linux_summary 204) ''secret'' 0
      (req [(''key'', ''guess''), (''host'', ''example.com'')] False) \<lparr>cap = 20, held = 0\<rparr>))
     = Some 403 \<and>
   filter is_probe (fst (handleRequest (up_env linux_summary 204) ''secret'' 0
      (req [(''key'', ''guess''), (''host'', ''example.com'')] False) \<lparr>cap = 20, held = 0\<rparr>))
     = [] \<and>
   snd (handleRequest (up_env linux_summary 204) ''secret'' 0
      (req [(''key'', ''guess''), (''host'', ''example.com'')] False) \<lparr>cap = 20, held = 0\<rparr>)
     = \<lparr>cap = 20, held = 0\<rparr>"
  using authorization [of "''secret''" "req [(''key'', ''guess''), (''host'', ''example.com'')] False"
      "up_env linux_summary 204" 0 "\<lparr>cap = 20, held = 0\<rparr>"]
  by (simp add: req_def values_of_def Get_def)

text \<open>
  C5. An authorized request whose \<open>host\<close> is the empty string gets the status 400,
  whatever its \<open>method\<close> is (the statement holds for every query), and the handler
  returns before the gate is consulted and before a probe runs.
\<close>

theorem empty_host_rejected:
  assumes "apiKey = [] \<or> Get (query r) ''key'' = apiKey" and "Get (query r) ''host'' = []"
  shows "status_of (fst (handleRequest e apiKey pick r g)) = Some 400 \<and>
         filter is_gate (fst (handleRequest e apiKey pick r g)) = [] \<and>
         filter is_probe (fst (handleRequest e apiKey pick r g)) = [] \<and>
         snd (handleRequest e apiKey pick r g) = g"
  by (simp add: handleRequest_no_host [OF assms])

theorem empty_host_rejected_witness:
  "Get (query (req [(''key'', ''secret''), (''method'', ''https'')] False)) ''key'' = ''secret'' \<and>
   Get (query (req [(''key'', ''secret''), (''method'', ''https'')] False)) ''host'' = [] \<and>
   status_of (fst (handleRequest (up_env linux_summary 204) ''secret'' 0
      (req [(''key'', ''secret''), (''method'', ''https'')] False) \<lparr>cap = 20, held = 0\<rparr>))
     = Some 400 \<and>
   filter is_gate (fst (handleRequest (up_env linux_summary 204) ''secret'' 0
      (req [(''key'', ''secret''), (''method'', ''https'')] False) \<lparr>cap = 20, held = 0\<rparr>))
     = []"
  using empty_host_rejected [of "''secret''" "req [(''key'', ''secret''), (''method'', ''https'')] False"
      "up_env linux_summary 204" 0 "\<lparr>cap = 20, held = 0\<rparr>"]
  by (simp add: req_def values_of_def Get_def)

text \<open>
  C6. An authorized request with a host that finds every slot taken (the channel is
  full) while its context is not cancelled gets the status 503; no probe runs, the
  \<^verbatim>\<open>select\<close> takes its default case at once instead of waiting for the send, so no slot
  is taken and the channel is as it was. The run is the same for every choice \<open>pick\<close>
  of the runtime.
\<close>

theorem busy_rejected:
  assumes "apiKey = [] \<or> Get (query r) ''key'' = apiKey" and "Get (query r) ''host'' \<noteq> []"
    and "held g = cap g" and "\<not> ctx_done r"
  shows "status_of (fst (handleRequest e apiKey pick r g)) = Some 503 \<and>
         filter is_probe (fst (handleRequest e apiKey pick r g)) = [] \<and>
         filter is_gate (fst (handleRequest e apiKey pick r g)) = [Select Default] \<and>
         snd (handleRequest e apiKey pick r g) = g"
proof -
  have "select_gate pick g (ctx_done r) = Default"
    using assms(3,4) by (simp add: select_gate_full)
  then show ?thesis
    by (simp add: handleRequest_busy [OF assms(1,2)])
qed

theorem busy_rejected_witness:
  "Get (query (req [(''host'', ''example.com'')] False)) ''host'' \<noteq> [] \<and>
   held \<lparr>cap = 2, held = 2\<rparr> = cap \<lparr>cap = 2, held = 2\<rparr> \<and>
   \<not> ctx_done (req [(''host'', ''example.com'')] False) \<and>
   status_of (fst (handleRequest (up_env linux_summary 204) [] 0
      (req [(''host'', ''example.com'')] False) \<lparr>cap = 2, held = 2\<rparr>)) = Some 503 \<and>
   filter is_probe (fst (handleRequest (up_env linux_summary 204) [] 0
      (req [(''host'', ''example.com'')] False) \<lparr>cap = 2, held = 2\<rparr>)) = [] \<and>
   snd (handleRequest (up_env linux_summary 204) [] 0
      (req [(''host'', ''example.com'')] False) \<lparr>cap = 2, held = 2\<rparr>) = \<lparr>cap = 2, held = 2\<rparr>"
  using busy_rejected [of "[]" "req [(''host'', ''example.com'')] False" "\<lparr>cap = 2, held = 2\<rparr>"
      "up_env linux_summary 204" 0]
  by (simp add: req_def values_of_def Get_def)

section \<open>The outcome of a probe in the response\<close>

lemma checkPing_error_nonempty: "snd (snd (checkPing e ctx h)) \<noteq> Some []"
  by (simp add: checkPing_def Let_def split: prod.splits sum.splits)

lemma field_failure_body:
  "field (json_of_Response \<lparr>Host = h, Type = m, Result = AnyInt 0, Error = msg\<rparr>) ''result''
     = Some (JInt 0)"
  "field (json_of_Response \<lparr>Host = h, Type = m, Result = AnyInt 0, Error = msg\<rparr>) ''error''
     = (if msg = [] then None else Some (JString msg))"
  by (simp_all add: field_def json_of_Response_def json_of_any_def)

text \<open>
  C7. When an admitted request's probe returns an error with the message \<open>msg\<close>, the
  handler calls no \<^verbatim>\<open>WriteHeader\<close>, so the status is 200, and the body is the encoding
  of the \<^verbatim>\<open>Response\<close> with \<^verbatim>\<open>Result\<close> 0 and \<^verbatim>\<open>Error\<close> \<open>msg\<close>: its \<open>result\<close> is 0 and its
  \<open>error\<close> is \<open>msg\<close>. (The tag \<^verbatim>\<open>omitempty\<close> would leave out an empty message; the
  messages of \<^verbatim>\<open>checkPing\<close> are never empty.)
\<close>

theorem probe_failure_response:
  assumes "apiKey = [] \<or> Get (query r) ''key'' = apiKey" and "Get (query r) ''host'' \<noteq> []"
    and "select_gate pick g (ctx_done r) = SendSlot"
    and "execute e (ctx_done r) (select_method (Get (query r) ''method'')) (Get (query r) ''host'')
           = (pevs, result, Some msg)"
  shows "status_of (fst (handleRequest e apiKey pick r g)) = Some 200 \<and>
         body_of (fst (handleRequest e apiKey pick r g)) =
           Some (json_of_Response \<lparr>Host = Get (query r) ''host'',
                   Type = select_method (Get (query r) ''method''),
                   Result = AnyInt 0, Error = msg\<rparr>) \<and>
         (\<exists>b. body_of (fst (handleRequest e apiKey pick r g)) = Some b \<and>
              field b ''result'' = Some (JInt 0) \<and>
              field b ''error'' = (if msg = [] then None else Some (JString msg))) \<and>
         (select_method (Get (query r) ''method'') = ''ping'' \<longrightarrow> msg \<noteq> [])"
proof -
  let ?h = "Get (query r) ''host''" and ?m = "select_method (Get (query r) ''method'')"
  have p: "pevs = [] \<or> (\<exists>ev. pevs = [ev] \<and> is_probe ev)"
    using execute_events [of e "ctx_done r" ?m ?h] assms(4) by simp
  have H: "fst (handleRequest e apiKey pick r g) =
      [content_type, Select SendSlot] @ pevs
       @ [Encode (json_of_Response (build_response ?h ?m result (Some msg))), Release]"
    by (simp add: handleRequest_admitted [OF assms])
  have b: "build_response ?h ?m result (Some msg)
      = \<lparr>Host = ?h, Type = ?m, Result = AnyInt 0, Error = msg\<rparr>"
    by (simp add: build_response_def)
  have s: "status_of (fst (handleRequest e apiKey pick r g)) = Some 200"
    by (simp add: H probe_events_silent(1) [OF p])
  have bd: "body_of (fst (handleRequest e apiKey pick r g)) =
      Some (json_of_Response \<lparr>Host = ?h, Type = ?m, Result = AnyInt 0, Error = msg\<rparr>)"
    by (simp add: H b probe_events_silent(2) [OF p])
  have ne: "?m = ''ping'' \<longrightarrow> msg \<noteq> []"
  proof
    assume m: "?m = ''ping''"
    then have "execute e (ctx_done r) ?m ?h =
        (fst (checkPing e (ctx_done r) ?h), AnyFloat (fst (snd (checkPing e (ctx_done r) ?h))),
         snd (snd (checkPing e (ctx_done r) ?h)))"
      by (simp add: execute_def split: prod.splits)
    with assms(4) have "snd (snd (checkPing e (ctx_done r) ?h)) = Some msg" by simp
    with checkPing_error_nonempty [of e "ctx_done r" ?h] show "msg \<noteq> []" by auto
  qed
  from s bd ne field_failure_body [of ?h ?m msg] show ?thesis by simp
qed

theorem probe_failure_response_witness:
  "Get (query (req [(''host'', ''192.0.2.1'')] False)) ''host'' \<noteq> [] \<and>
   select_gate 0 \<lparr>cap = 20, held = 3\<rparr> (ctx_done (req [(''host'', ''192.0.2.1'')] False)) = SendSlot \<and>
   execute down_env False ''ping'' ''192.0.2.1'' =
     ([Exec [''ping'', ''-c'', ''3'', ''-W'', ''2'', ''-q'', ''192.0.2.1'']], AnyFloat 0,
      Some ''ping failed: host unreachable or timeout'') \<and>
   status_of (fst (handleRequest down_env [] 0 (req [(''host'', ''192.0.2.1'')] False)
      \<lparr>cap = 20, held = 3\<rparr>)) = Some 200 \<and>
   body_of (fst (handleRequest down_env [] 0 (req [(''host'', ''192.0.2.1'')] False)
      \<lparr>cap = 20, held = 3\<rparr>)) =
     Some [(''host'', JString ''192.0.2.1''), (''type'', JString ''ping''), (''result'', JInt 0),
           (''error'', JString ''ping failed: host unreachable or timeout'')]"
proof -
  have x: "execute down_env False ''ping'' ''192.0.2.1'' =
     ([Exec [''ping'', ''-c'', ''3'', ''-W'', ''2'', ''-q'', ''192.0.2.1'']], AnyFloat 0,
      Some ''ping failed: host unreachable or timeout'')"
    by (simp add: execute_def checkPing_def down_env_def ping_argv_def)
  have q: "Get (query (req [(''host'', ''192.0.2.1'')] False)) ''host'' = ''192.0.2.1''"
      "Get (query (req [(''host'', ''192.0.2.1'')] False)) ''method'' = []"
      "ctx_done (req [(''host'', ''192.0.2.1'')] False) = False"
    by (simp_all add: req_def values_of_def Get_def)
  have s: "select_gate 0 \<lparr>cap = 20, held = 3\<rparr> False = SendSlot"
    by (simp add: select_gate_def ready_cases_def)
  have m: "select_method [] = ''ping''" by (simp add: select_method_def)
  show ?thesis
    using probe_failure_response [of "[]" "req [(''host'', ''192.0.2.1'')] False" 0
        "\<lparr>cap = 20, held = 3\<rparr>" down_env
        "[Exec [''ping'', ''-c'', ''3'', ''-W'', ''2'', ''-q'', ''192.0.2.1'']]" "AnyFloat 0"
        "''ping failed: host unreachable or timeout''"]
    by (simp add: q s m x json_of_Response_def json_of_any_def)
qed

section \<open>The host on its way to the probe\<close>

lemma execute_ping:
  assumes "m \<noteq> ''http''" and "m \<noteq> ''https''"
  shows "fst (execute e ctx m h) = [Exec [''ping'', ''-c'', ''3'', ''-W'', ''2'', ''-q'', h]]"
  using assms checkPing_events [of e ctx h]
  by (cases "checkPing e ctx h") (simp add: execute_def ping_argv_def)

lemma execute_http:
  assumes "m = ''http'' \<or> m = ''https''"
  shows "fst (execute e ctx m h) = fst (checkHTTP e ctx h m)"
  using assms by (auto simp add: execute_def split: prod.splits)

lemma build_response_fields:
  "Host (build_response h m res err) = h" "Type (build_response h m res err) = m"
  by (cases err; simp add: build_response_def)+

lemma select_method_cases:
  "select_method m = ''ping'' \<or> select_method m = ''http'' \<or> select_method m = ''https''"
  by (simp add: select_method_def)

text \<open>
  C10. The only check on the host is \<^verbatim>\<open>host == ""\<close>: an authorized request with a
  host that is not empty never gets the status 400, and when it is admitted the probe
  gets the string of the query as it is. For \<^verbatim>\<open>ping\<close> the host is the last argument
  of the command, which \<^verbatim>\<open>exec\<close> starts with no shell; for \<^verbatim>\<open>http\<close> and \<^verbatim>\<open>https\<close> the
  requests are those of \<^verbatim>\<open>checkHTTP\<close> at that string.
\<close>

theorem host_unmodified:
  assumes "apiKey = [] \<or> Get (query r) ''key'' = apiKey" and "Get (query r) ''host'' \<noteq> []"
  shows "status_of (fst (handleRequest e apiKey pick r g)) \<noteq> Some 400 \<and>
    (select_gate pick g (ctx_done r) = SendSlot \<longrightarrow>
       (select_method (Get (query r) ''method'') = ''ping'' \<longrightarrow>
          filter is_probe (fst (handleRequest e apiKey pick r g)) =
            [Exec [''ping'', ''-c'', ''3'', ''-W'', ''2'', ''-q'', Get (query r) ''host'']]) \<and>
       (select_method (Get (query r) ''method'') \<noteq> ''ping'' \<longrightarrow>
          filter is_probe (fst (handleRequest e apiKey pick r g)) =
            fst (checkHTTP e (ctx_done r) (Get (query r) ''host'')
                   (select_method (Get (query r) ''method'')))) \<and>
       (\<exists>b. body_of (fst (handleRequest e apiKey pick r g)) = Some b \<and>
            field b ''host'' = Some (JString (Get (query r) ''host''))))"
proof -
  let ?h = "Get (query r) ''host''" and ?m = "select_method (Get (query r) ''method'')"
  let ?H = "handleRequest e apiKey pick r g"
  obtain pevs result err where x: "execute e (ctx_done r) ?m ?h = (pevs, result, err)"
    by (metis prod_cases3)
  have p: "pevs = [] \<or> (\<exists>ev. pevs = [ev] \<and> is_probe ev)"
    using execute_events [of e "ctx_done r" ?m ?h] x by simp
  have fp: "filter is_probe pevs = pevs" using p by auto
  have adm: "fst ?H = [content_type, Select SendSlot] @ pevs
       @ [Encode (json_of_Response (build_response ?h ?m result err)), Release]"
    if "select_gate pick g (ctx_done r) = SendSlot"
    by (simp add: handleRequest_admitted [OF assms that x])
  have s: "status_of (fst ?H) \<noteq> Some 400"
  proof (cases "select_gate pick g (ctx_done r)")
    case SendSlot
    then show ?thesis by (simp add: adm probe_events_silent(1) [OF p])
  next
    case CtxDone
    then show ?thesis by (simp add: handleRequest_abandoned [OF assms])
  next
    case Default
    then show ?thesis by (simp add: handleRequest_busy [OF assms])
  qed
  have a: "filter is_probe (fst ?H) = [Exec [''ping'', ''-c'', ''3'', ''-W'', ''2'', ''-q'', ?h]]"
    if "select_gate pick g (ctx_done r) = SendSlot" and "?m = ''ping''"
  proof -
    have "pevs = [Exec [''ping'', ''-c'', ''3'', ''-W'', ''2'', ''-q'', ?h]]"
      using execute_ping [of ?m e "ctx_done r" ?h] x that(2) by simp
    then show ?thesis by (simp add: adm [OF that(1)])
  qed
  have b: "filter is_probe (fst ?H) = fst (checkHTTP e (ctx_done r) ?h ?m)"
    if "select_gate pick g (ctx_done r) = SendSlot" and "?m \<noteq> ''ping''"
  proof -
    have "?m = ''http'' \<or> ?m = ''https''"
      using select_method_cases [of "Get (query r) ''method''"] that(2) by simp
    then have "pevs = fst (checkHTTP e (ctx_done r) ?h ?m)"
      using execute_http [of ?m e "ctx_done r" ?h] x by simp
    with fp show ?thesis by (simp add: adm [OF that(1)])
  qed
  have c: "\<exists>b. body_of (fst ?H) = Some b \<and> field b ''host'' = Some (JString ?h)"
    if "select_gate pick g (ctx_done r) = SendSlot"
  proof -
    have "body_of (fst ?H) = Some (json_of_Response (build_response ?h ?m result err))"
      by (simp add: adm [OF that] probe_events_silent(2) [OF p])
    moreover have "field (json_of_Response (build_response ?h ?m result err)) ''host''
        = Some (JString ?h)"
      by (simp add: field_def json_of_Response_def build_response_fields)
    ultimately show ?thesis by simp
  qed
  from s a b c show ?thesis by blast
qed

theorem host_unmodified_witness:
  "Get (query (req [(''host'', '' ; rm -rf / '')] False)) ''host'' \<noteq> [] \<and>
   select_gate 0 \<lparr>cap = 20, held = 0\<rparr> (ctx_done (req [(''host'', '' ; rm -rf / '')] False))
     = SendSlot \<and>
   select_method (Get (query (req [(''host'', '' ; rm -rf / '')] False)) ''method'') = ''ping'' \<and>
   status_of (fst (handleRequest down_env [] 0 (req [(''host'', '' ; rm -rf / '')] False)
      \<lparr>cap = 20, held = 0\<rparr>)) \<noteq> Some 400 \<and>
   filter is_probe (fst (handleRequest down_env [] 0 (req [(''host'', '' ; rm -rf / '')] False)
      \<lparr>cap = 20, held = 0\<rparr>)) =
     [Exec [''ping'', ''-c'', ''3'', ''-W'', ''2'', ''-q'', '' ; rm -rf / '']]"
proof -
  have q: "Get (query (req [(''host'', '' ; rm -rf / '')] False)) ''host'' = '' ; rm -rf / ''"
      "Get (query (req [(''host'', '' ; rm -rf / '')] False)) ''method'' = []"
      "ctx_done (req [(''host'', '' ; rm -rf / '')] False) = False"
    by (simp_all add: req_def values_of_def Get_def)
  have s: "select_gate 0 \<lparr>cap = 20, held = 0\<rparr> False = SendSlot"
    by (simp add: select_gate_def ready_cases_def)
  have m: "select_method [] = ''ping''" by (simp add: select_method_def)
  show ?thesis
    using host_unmodified [of "[]" "req [(''host'', '' ; rm -rf / '')] False" down_env 0
        "\<lparr>cap = 20, held = 0\<rparr>"]
    by (simp add: q s m)
qed

section \<open>The HTTP probe\<close>

lemma TrimPrefix_http_of_https: "TrimPrefix (''https://'' @ h) ''http://'' = ''https://'' @ h"
  by (simp add: TrimPrefix_def HasPrefix_def)

lemma TrimPrefix_append: "TrimPrefix (p @ h) p = h"
  by (simp add: TrimPrefix_def HasPrefix_def)

lemma TrimPrefix_none: "\<not> HasPrefix s p \<Longrightarrow> TrimPrefix s p = s"
  by (simp add: TrimPrefix_def)

text \<open>
  C9. For every host and scheme, \<^verbatim>\<open>checkHTTP\<close> takes a leading \<^verbatim>\<open>http://\<close> off the host and
  then a leading \<^verbatim>\<open>https://\<close>, and builds a HEAD request for \<^verbatim>\<open>scheme://host\<close>: a host
  \<^verbatim>\<open>https://h\<close> gives \<^verbatim>\<open>scheme://h\<close>, a host \<^verbatim>\<open>http://h\<close> gives \<^verbatim>\<open>scheme://h\<close> (less a
  \<^verbatim>\<open>https://\<close> that \<open>h\<close> starts with), a host with neither prefix is kept. Every request
  it sends is that HEAD request; when the request is built it is sent, and when the
  client returns a response, the result is its status code as it is, with no error.
\<close>

theorem checkHTTP_head_status:
  "http_url (''https://'' @ h) scheme = scheme @ ''://'' @ h \<and>
   http_url (''http://'' @ h) scheme = scheme @ ''://'' @ TrimPrefix h ''https://'' \<and>
   (\<not> HasPrefix h ''https://'' \<longrightarrow>
      http_url (''http://'' @ h) scheme = scheme @ ''://'' @ h) \<and>
   (\<not> HasPrefix host ''http://'' \<and> \<not> HasPrefix host ''https://'' \<longrightarrow>
      http_url host scheme = scheme @ ''://'' @ host) \<and>
   set (fst (checkHTTP e ctx host scheme)) \<subseteq> {HttpDo ''HEAD'' (http_url host scheme)} \<and>
   (NewRequestWithContext e ctx ''HEAD'' (http_url host scheme) = None \<longrightarrow>
      fst (checkHTTP e ctx host scheme) = [HttpDo ''HEAD'' (http_url host scheme)]) \<and>
   (NewRequestWithContext e ctx ''HEAD'' (http_url host scheme) = None \<and>
    ClientDo e ctx ''HEAD'' (http_url host scheme) = Inr code \<longrightarrow>
      snd (checkHTTP e ctx host scheme) = (code, None))"
proof (intro conjI impI)
  show "http_url (''https://'' @ h) scheme = scheme @ ''://'' @ h"
    unfolding http_url_def TrimPrefix_http_of_https TrimPrefix_append ..
  have a: "TrimPrefix (''http://'' @ h) ''http://'' = h" by (rule TrimPrefix_append)
  show b: "http_url (''http://'' @ h) scheme = scheme @ ''://'' @ TrimPrefix h ''https://''"
    unfolding http_url_def a ..
  show "http_url (''http://'' @ h) scheme = scheme @ ''://'' @ h" if "\<not> HasPrefix h ''https://''"
    unfolding b TrimPrefix_none [OF that] ..
  show "http_url host scheme = scheme @ ''://'' @ host"
    if "\<not> HasPrefix host ''http://'' \<and> \<not> HasPrefix host ''https://''"
    using that by (simp add: http_url_def TrimPrefix_none)
  show "set (fst (checkHTTP e ctx host scheme)) \<subseteq> {HttpDo ''HEAD'' (http_url host scheme)}"
    using checkHTTP_events [of e ctx host scheme] by auto
  show "fst (checkHTTP e ctx host scheme) = [HttpDo ''HEAD'' (http_url host scheme)]"
    if "NewRequestWithContext e ctx ''HEAD'' (http_url host scheme) = None"
    using that by (simp add: checkHTTP_def Let_def split: sum.splits)
  show "snd (checkHTTP e ctx host scheme) = (code, None)"
    if "NewRequestWithContext e ctx ''HEAD'' (http_url host scheme) = None \<and>
        ClientDo e ctx ''HEAD'' (http_url host scheme) = Inr code"
    using that by (simp add: checkHTTP_def Let_def)
qed

theorem checkHTTP_head_status_witness:
  "\<not> HasPrefix ''example.com/x'' ''https://'' \<and>
   http_url ''http://example.com/x'' ''https'' = ''https://example.com/x'' \<and>
   NewRequestWithContext (up_env linux_summary 404) False ''HEAD''
     (http_url ''http://example.com/x'' ''https'') = None \<and>
   ClientDo (up_env linux_summary 404) False ''HEAD''
     (http_url ''http://example.com/x'' ''https'') = Inr 404 \<and>
   checkHTTP (up_env linux_summary 404) False ''http://example.com/x'' ''https''
     = ([HttpDo ''HEAD'' ''https://example.com/x''], 404, None)"
  using checkHTTP_head_status [of "''example.com/x''" "''https''" "''http://example.com/x''"
      "up_env linux_summary 404" False 404]
  by (simp add: up_env_def prod_eq_iff http_url_def TrimPrefix_def HasPrefix_def)

section \<open>What the regular expression matches\<close>

lemma is_decimal_split:
  "is_decimal d \<longleftrightarrow>
     (\<exists>ip fp. d = ip @ CHR ''.'' # fp \<and> ip \<noteq> [] \<and> fp \<noteq> [] \<and>
        list_all is_digit ip \<and> list_all is_digit fp)"
proof
  assume h: "is_decimal d"
  then obtain c fp where r: "dropWhile is_digit d = c # fp" "c = CHR ''.''" "fp \<noteq> []"
      "list_all is_digit fp"
    and ip: "takeWhile is_digit d \<noteq> []"
    by (auto simp add: is_decimal_def split: list.splits)
  have "d = takeWhile is_digit d @ CHR ''.'' # fp"
    using takeWhile_dropWhile_id [of is_digit d] r by simp
  moreover have "list_all is_digit (takeWhile is_digit d)"
    by (simp add: list_all_iff) (meson set_takeWhileD)
  ultimately show "\<exists>ip fp. d = ip @ CHR ''.'' # fp \<and> ip \<noteq> [] \<and> fp \<noteq> [] \<and>
      list_all is_digit ip \<and> list_all is_digit fp"
    using ip r by blast
next
  assume "\<exists>ip fp. d = ip @ CHR ''.'' # fp \<and> ip \<noteq> [] \<and> fp \<noteq> [] \<and>
      list_all is_digit ip \<and> list_all is_digit fp"
  then obtain ip fp where d: "d = ip @ CHR ''.'' # fp" "ip \<noteq> []" "fp \<noteq> []"
      "list_all is_digit ip" "list_all is_digit fp"
    by blast
  have nd: "\<not> is_digit CHR ''.''" by (simp add: is_digit_def)
  have "takeWhile is_digit d = ip" "dropWhile is_digit d = CHR ''.'' # fp"
    using d nd by (simp_all add: list_all_iff)
  then show "is_decimal d" using d by (simp add: is_decimal_def)
qed

lemma match_number_decimal:
  assumes "is_decimal d" and "rest = [] \<or> \<not> is_digit (hd rest)"
  shows "match_number (d @ rest) = Some (d, rest)"
proof -
  from assms(1) obtain ip fp where d: "d = ip @ CHR ''.'' # fp" "ip \<noteq> []" "fp \<noteq> []"
      "list_all is_digit ip" "list_all is_digit fp"
    unfolding is_decimal_split by blast
  have nd: "\<not> is_digit CHR ''.''" by (simp add: is_digit_def)
  have a: "takeWhile is_digit (d @ rest) = ip"
      "dropWhile is_digit (d @ rest) = CHR ''.'' # fp @ rest"
    using d nd by (simp_all add: list_all_iff)
  have b: "takeWhile is_digit (fp @ rest) = fp \<and> dropWhile is_digit (fp @ rest) = rest"
    using d assms(2) by (cases rest) (simp_all add: list_all_iff)
  show ?thesis using a b d by (simp add: match_number_def)
qed

lemma match_number_Some:
  assumes "match_number s = Some (d, rest)"
  shows "s = d @ rest \<and> is_decimal d \<and> (rest = [] \<or> \<not> is_digit (hd rest))"
proof -
  let ?ip = "takeWhile is_digit s"
  from assms obtain r where r: "?ip \<noteq> []" "dropWhile is_digit s = CHR ''.'' # r"
     "takeWhile is_digit r \<noteq> []" "d = ?ip @ ''.'' @ takeWhile is_digit r"
     "rest = dropWhile is_digit r"
    by (auto simp add: match_number_def Let_def split: if_splits list.splits)
  have s: "s = ?ip @ CHR ''.'' # takeWhile is_digit r @ dropWhile is_digit r"
    using takeWhile_dropWhile_id [of is_digit s] r(2) by simp
  have all: "list_all is_digit ?ip" "list_all is_digit (takeWhile is_digit r)"
    by (simp_all add: list_all_iff) (meson set_takeWhileD)+
  have "is_decimal d" unfolding is_decimal_split using r all by auto
  moreover have "rest = [] \<or> \<not> is_digit (hd rest)"
    using r(5) by (metis hd_dropWhile)
  ultimately show ?thesis using s r by simp
qed

lemma not_digit_slash: "\<not> is_digit CHR ''/''"
  by (simp add: is_digit_def)

lemma match_here_pattern:
  assumes "is_decimal g1" and "is_decimal g2"
  shows "match_here (''/'' @ g1 @ ''/'' @ g2 @ ''/'' @ rest) = Some (g1, g2)"
proof -
  have a: "match_number (g1 @ CHR ''/'' # g2 @ CHR ''/'' # rest)
      = Some (g1, CHR ''/'' # g2 @ CHR ''/'' # rest)"
    using match_number_decimal [OF assms(1), of "CHR ''/'' # g2 @ CHR ''/'' # rest"]
      not_digit_slash by simp
  have b: "match_number (g2 @ CHR ''/'' # rest) = Some (g2, CHR ''/'' # rest)"
    using match_number_decimal [OF assms(2), of "CHR ''/'' # rest"] not_digit_slash by simp
  show ?thesis by (simp add: match_here_def a b)
qed

lemma match_here_Some:
  assumes "match_here s = Some (g1, g2)"
  shows "\<exists>rest. s = ''/'' @ g1 @ ''/'' @ g2 @ ''/'' @ rest \<and> is_decimal g1 \<and> is_decimal g2"
proof -
  from assms obtain r r2 r4 where
    s: "s = CHR ''/'' # r" and m1: "match_number r = Some (g1, CHR ''/'' # r2)"
    and m2: "match_number r2 = Some (g2, CHR ''/'' # r4)"
    by (auto simp add: match_here_def split: list.splits if_splits option.splits)
  from match_number_Some [OF m1] match_number_Some [OF m2] s
  show ?thesis by auto
qed



lemma FindStringSubmatch_Nil_iff:
  "FindStringSubmatch s = [] \<longleftrightarrow> (\<forall>k<length s. match_here (drop k s) = None)"
proof (induction s)
  case Nil
  then show ?case by simp
next
  case (Cons c cs)
  show ?case
  proof (cases "match_here (c # cs)")
    case None
    have "(\<forall>k<length (c # cs). match_here (drop k (c # cs)) = None) \<longleftrightarrow>
          (\<forall>k<length cs. match_here (drop k cs) = None)"
      using None by (auto simp add: less_Suc_eq_0_disj)
    with None Cons.IH show ?thesis by simp
  next
    case (Some p)
    then have "\<not> (\<forall>k<length (c # cs). match_here (drop k (c # cs)) = None)"
      by (metis drop0 length_greater_0_conv list.discI option.discI)
    with Some show ?thesis by (simp split: prod.splits)
  qed
qed

lemma FindStringSubmatch_length: "length (FindStringSubmatch s) = 0 \<or> length (FindStringSubmatch s) = 3"
  by (induction s) (simp_all split: option.splits)

text \<open>
  No match is found exactly when the text \<^verbatim>\<open>/a/b/\<close>, with decimal numbers \<open>a\<close> and \<open>b\<close>,
  stands nowhere in the string.
\<close>

lemma FindStringSubmatch_Nil_pattern:
  "FindStringSubmatch s = [] \<longleftrightarrow>
     \<not> (\<exists>pre g1 g2 post. s = pre @ ''/'' @ g1 @ ''/'' @ g2 @ ''/'' @ post \<and>
           is_decimal g1 \<and> is_decimal g2)"
proof
  assume n: "FindStringSubmatch s = []"
  show "\<not> (\<exists>pre g1 g2 post. s = pre @ ''/'' @ g1 @ ''/'' @ g2 @ ''/'' @ post \<and>
           is_decimal g1 \<and> is_decimal g2)"
  proof
    assume "\<exists>pre g1 g2 post. s = pre @ ''/'' @ g1 @ ''/'' @ g2 @ ''/'' @ post \<and>
           is_decimal g1 \<and> is_decimal g2"
    then obtain pre g1 g2 post where s: "s = pre @ ''/'' @ g1 @ ''/'' @ g2 @ ''/'' @ post"
      and d: "is_decimal g1" "is_decimal g2" by blast
    have "drop (length pre) s = ''/'' @ g1 @ ''/'' @ g2 @ ''/'' @ post" by (simp add: s)
    then have "match_here (drop (length pre) s) = Some (g1, g2)"
      using match_here_pattern [OF d] by simp
    moreover have "length pre < length s" by (simp add: s)
    ultimately show False using n unfolding FindStringSubmatch_Nil_iff by fastforce
  qed
next
  assume a: "\<not> (\<exists>pre g1 g2 post. s = pre @ ''/'' @ g1 @ ''/'' @ g2 @ ''/'' @ post \<and>
           is_decimal g1 \<and> is_decimal g2)"
  show "FindStringSubmatch s = []"
  proof (rule ccontr)
    assume "FindStringSubmatch s \<noteq> []"
    then obtain k where k: "k < length s" "match_here (drop k s) \<noteq> None"
      unfolding FindStringSubmatch_Nil_iff by blast
    then obtain g1 g2 where "match_here (drop k s) = Some (g1, g2)" by auto
    from match_here_Some [OF this] obtain rest where
      r: "drop k s = ''/'' @ g1 @ ''/'' @ g2 @ ''/'' @ rest" "is_decimal g1" "is_decimal g2"
      by blast
    have "s = take k s @ ''/'' @ g1 @ ''/'' @ g2 @ ''/'' @ rest"
      using append_take_drop_id [of k s] r(1) by simp
    with r(2,3) a show False by blast
  qed
qed

section \<open>The ping probe\<close>

lemma checkPing_failed:
  assumes "CombinedOutput e ctx (ping_argv host) = (output, Some cause)"
  shows "snd (checkPing e ctx host) = (0, Some ''ping failed: host unreachable or timeout'')"
  using assms by (simp add: checkPing_def)

lemma checkPing_no_match:
  assumes "CombinedOutput e ctx (ping_argv host) = (output, None)"
    and "FindStringSubmatch output = []"
  shows "snd (checkPing e ctx host) = (0, Some ''could not parse ping output'')"
  using assms by (simp add: checkPing_def)

lemma checkPing_match:
  assumes "CombinedOutput e ctx (ping_argv host) = (output, None)"
    and "FindStringSubmatch output = [w, g1, g2]"
  shows "snd (checkPing e ctx host) =
    (case ParseFloat e g2 of
       Inl perr \<Rightarrow> (0, Some (''parse error: '' @ perr))
     | Inr v \<Rightarrow>
         if v \<le> 0 then (0, Some (''invalid ping result: '' @ FormatFloat e v)) else (v, None))"
  using assms by (simp add: checkPing_def split: sum.splits)

lemma FindStringSubmatch_cases:
  "FindStringSubmatch s = [] \<or> (\<exists>w g1 g2. FindStringSubmatch s = [w, g1, g2])"
  by (induction s) (auto split: option.splits)

text \<open>
  C8. \<^verbatim>\<open>checkPing\<close> returns a value above 0 with no error, or 0 with an error. When the
  command fails the error is \<^verbatim>\<open>ping failed: host unreachable or timeout\<close>, whatever the
  cause. When it succeeds and the pattern of the code (the text \<^verbatim>\<open>/a/b/\<close> with decimal
  numbers \<open>a\<close> and \<open>b\<close>) stands nowhere in the output, the error is
  \<^verbatim>\<open>could not parse ping output\<close>. When the pattern is found, the second number is
  parsed: a parse failure gives \<^verbatim>\<open>parse error: ...\<close>, a value that is not positive gives
  \<^verbatim>\<open>invalid ping result: ...\<close>, a positive value is returned.
\<close>

theorem checkPing_outcomes:
  assumes "CombinedOutput e ctx (ping_argv host) = (output, err)"
  shows "(snd (snd (checkPing e ctx host)) = None \<longrightarrow> 0 < fst (snd (checkPing e ctx host))) \<and>
    (snd (snd (checkPing e ctx host)) \<noteq> None \<longrightarrow> fst (snd (checkPing e ctx host)) = 0) \<and>
    (err \<noteq> None \<longrightarrow>
       snd (checkPing e ctx host) = (0, Some ''ping failed: host unreachable or timeout'')) \<and>
    (err = None \<and>
     \<not> (\<exists>pre g1 g2 post. output = pre @ ''/'' @ g1 @ ''/'' @ g2 @ ''/'' @ post \<and>
           is_decimal g1 \<and> is_decimal g2) \<longrightarrow>
       snd (checkPing e ctx host) = (0, Some ''could not parse ping output'')) \<and>
    (\<forall>w g1 g2. err = None \<and> FindStringSubmatch output = [w, g1, g2] \<longrightarrow>
       snd (checkPing e ctx host) =
         (case ParseFloat e g2 of
            Inl perr \<Rightarrow> (0, Some (''parse error: '' @ perr))
          | Inr v \<Rightarrow>
              if v \<le> 0 then (0, Some (''invalid ping result: '' @ FormatFloat e v))
              else (v, None)))"
proof -
  let ?R = "snd (checkPing e ctx host)"
  have failed: "?R = (0, Some ''ping failed: host unreachable or timeout'')" if "err \<noteq> None"
    using that assms checkPing_failed by (cases err) auto
  have absent: "?R = (0, Some ''could not parse ping output'')"
    if "err = None" and "FindStringSubmatch output = []"
    using that assms checkPing_no_match by simp
  have found: "?R =
      (case ParseFloat e g2 of
         Inl perr \<Rightarrow> (0, Some (''parse error: '' @ perr))
       | Inr v \<Rightarrow>
           if v \<le> 0 then (0, Some (''invalid ping result: '' @ FormatFloat e v)) else (v, None))"
    if "err = None" and "FindStringSubmatch output = [w, g1, g2]" for w g1 g2
    using that assms checkPing_match by simp
  have shape: "(snd ?R = None \<longrightarrow> 0 < fst ?R) \<and> (snd ?R \<noteq> None \<longrightarrow> fst ?R = 0)"
  proof (cases "err = None")
    case False
    then show ?thesis by (simp add: failed)
  next
    case True
    from FindStringSubmatch_cases [of "output"] show ?thesis
    proof
      assume "FindStringSubmatch output = []"
      with True show ?thesis by (simp add: absent)
    next
      assume "\<exists>w g1 g2. FindStringSubmatch output = [w, g1, g2]"
      then obtain w g1 g2 where "FindStringSubmatch output = [w, g1, g2]" by blast
      from found [OF True this] show ?thesis
        by (cases "ParseFloat e g2") (simp_all split: if_splits)
    qed
  qed
  have absent': "?R = (0, Some ''could not parse ping output'')"
    if "err = None \<and>
     \<not> (\<exists>pre g1 g2 post. output = pre @ ''/'' @ g1 @ ''/'' @ g2 @ ''/'' @ post \<and>
           is_decimal g1 \<and> is_decimal g2)"
  proof -
    from that have "FindStringSubmatch output = []"
      unfolding FindStringSubmatch_Nil_pattern by blast
    with that absent show ?thesis by blast
  qed
  show ?thesis
  proof (intro conjI allI impI)
    show "0 < fst ?R" if "snd ?R = None" using shape that by simp
    show "fst ?R = 0" if "snd ?R \<noteq> None" using shape that by simp
    show "?R = (0, Some ''ping failed: host unreachable or timeout'')" if "err \<noteq> None"
      using that by (rule failed)
    show "?R = (0, Some ''could not parse ping output'')"
      if "err = None \<and>
        \<not> (\<exists>pre g1 g2 post. output = pre @ ''/'' @ g1 @ ''/'' @ g2 @ ''/'' @ post \<and>
           is_decimal g1 \<and> is_decimal g2)"
      using that by (rule absent')
    show "?R =
      (case ParseFloat e g2 of
         Inl perr \<Rightarrow> (0, Some (''parse error: '' @ perr))
       | Inr v \<Rightarrow>
           if v \<le> 0 then (0, Some (''invalid ping result: '' @ FormatFloat e v)) else (v, None))"
      if "err = None \<and> FindStringSubmatch output = [w, g1, g2]" for w g1 g2
      using that found by blast
  qed
qed

theorem checkPing_outcomes_witness:
  "snd (checkPing down_env False ''192.0.2.1'')
     = (0, Some ''ping failed: host unreachable or timeout'') \<and>
   FindStringSubmatch busybox_summary = [] \<and>
   snd (checkPing (up_env busybox_summary 200) False ''127.0.0.1'')
     = (0, Some ''could not parse ping output'') \<and>
   FindStringSubmatch ''/1.0/0.0/3.0/'' = [''/1.0/0.0/'', ''1.0'', ''0.0''] \<and>
   snd (checkPing (up_env ''/1.0/0.0/3.0/'' 200) False ''127.0.0.1'')
     = (0, Some ''invalid ping result: 0'') \<and>
   FindStringSubmatch ''/1.5/2.5/3.5/'' = [''/1.5/2.5/'', ''1.5'', ''2.5''] \<and>
   snd (checkPing (up_env ''/1.5/2.5/3.5/'' 200) False ''127.0.0.1'') = (5 / 2, None)"
proof -
  have a: "CombinedOutput down_env False (ping_argv ''192.0.2.1'') = ([], Some ''exit status 1'')"
    by (simp add: down_env_def)
  have b: "CombinedOutput (up_env out 200) False (ping_argv ''127.0.0.1'') = (out, None)" for out
    by (simp add: up_env_def)
  have n: "FindStringSubmatch busybox_summary = []"
    by (simp add: busybox_summary_def match_here_def match_number_def is_digit_def)
  have n': "\<not> (\<exists>pre g1 g2 post. busybox_summary = pre @ ''/'' @ g1 @ ''/'' @ g2 @ ''/'' @ post \<and>
           is_decimal g1 \<and> is_decimal g2)"
    using n unfolding FindStringSubmatch_Nil_pattern .
  have z: "FindStringSubmatch ''/1.0/0.0/3.0/'' = [''/1.0/0.0/'', ''1.0'', ''0.0'']"
    by (simp add: match_here_def match_number_def is_digit_def)
  have p: "FindStringSubmatch ''/1.5/2.5/3.5/'' = [''/1.5/2.5/'', ''1.5'', ''2.5'']"
    by (simp add: match_here_def match_number_def is_digit_def)
  have v: "ParseFloat (up_env out 200) ''0.0'' = Inr 0"
      "ParseFloat (up_env out 200) ''2.5'' = Inr (5 / 2)"
      "FormatFloat (up_env out 200) 0 = ''0''" for out
    by (simp_all add: up_env_def decimal_value_def digits_val_def digit_val_def is_digit_def)
  show ?thesis
    using checkPing_outcomes [OF a] checkPing_outcomes [OF b [of busybox_summary]]
      checkPing_outcomes [OF b [of "''/1.0/0.0/3.0/''"]]
      checkPing_outcomes [OF b [of "''/1.5/2.5/3.5/''"]] n n' z p
    by (simp add: v)
qed

text \<open>
  On the summary that iputils prints, \<^verbatim>\<open>min/avg/max/mdev = 0.125/0.250/0.500/0.125\<close>, no
  slash stands before the minimum: the first place where the pattern matches is
  \<^verbatim>\<open>/0.250/0.500/\<close>, and the second group, which \<^verbatim>\<open>checkPing\<close> returns, is the maximum.
\<close>

lemma checkPing_linux_summary:
  "FindStringSubmatch linux_summary = [''/0.250/0.500/'', ''0.250'', ''0.500''] \<and>
   snd (checkPing (up_env linux_summary 200) False ''127.0.0.1'') = (1 / 2, None)"
  by (simp add: checkPing_def up_env_def linux_summary_def match_here_def match_number_def
      decimal_value_def digits_val_def digit_val_def is_digit_def)




section \<open>The bodies the handler writes\<close>






section \<open>Cancellation at the gate\<close>

text \<open>
  C3, as stated, fails: with the context cancelled and a slot free, both the send and
  the receive from \<^verbatim>\<open>Done()\<close> can proceed, and when the runtime chooses the send the
  request is admitted, the probe is started and a response is written.
\<close>

theorem cancelled_at_gate_counterexample:
  "ctx_done (req [(''host'', ''192.0.2.1'')] True) \<and>
   held \<lparr>cap = 20, held = 0\<rparr> < cap \<lparr>cap = 20, held = 0\<rparr> \<and>
   handleRequest down_env [] 0 (req [(''host'', ''192.0.2.1'')] True) \<lparr>cap = 20, held = 0\<rparr> =
     ([content_type, Select SendSlot,
       Exec [''ping'', ''-c'', ''3'', ''-W'', ''2'', ''-q'', ''192.0.2.1''],
       Encode [(''host'', JString ''192.0.2.1''), (''type'', JString ''ping''),
               (''result'', JInt 0),
               (''error'', JString ''ping failed: host unreachable or timeout'')],
       Release], \<lparr>cap = 20, held = 0\<rparr>) \<and>
   status_of (fst (handleRequest down_env [] 0 (req [(''host'', ''192.0.2.1'')] True)
     \<lparr>cap = 20, held = 0\<rparr>)) = Some 200"
  by (simp add: handleRequest_def req_def values_of_def Get_def select_gate_def ready_cases_def
      select_method_def execute_def checkPing_def down_env_def ping_argv_def build_response_def
      json_of_Response_def json_of_any_def Let_def)

text \<open>
  C3, amended. For an authorized request with a host whose context is cancelled when the
  \<^verbatim>\<open>select\<close> runs: when no slot is free, the handler returns with no slot taken, no
  probe, no status and no body, and it does not answer 503. When a slot is free the
  runtime chooses between the two cases that can proceed: the receive from \<^verbatim>\<open>Done()\<close>
  gives the same silent return, the send admits the request (slot taken and released,
  status 200).
\<close>

theorem cancelled_at_gate:
  assumes "apiKey = [] \<or> Get (query r) ''key'' = apiKey" and "Get (query r) ''host'' \<noteq> []"
    and "ctx_done r"
  shows "(cap g \<le> held g \<or> odd pick \<longrightarrow>
            handleRequest e apiKey pick r g = ([content_type, Select CtxDone], g)) \<and>
         (held g < cap g \<and> even pick \<longrightarrow>
            filter is_gate (fst (handleRequest e apiKey pick r g)) = [Select SendSlot, Release] \<and>
            status_of (fst (handleRequest e apiKey pick r g)) = Some 200 \<and>
            snd (handleRequest e apiKey pick r g) = g) \<and>
         status_of [content_type, Select CtxDone] = None \<and>
         body_of [content_type, Select CtxDone] = None \<and>
         filter is_probe [content_type, Select CtxDone] = [] \<and>
         filter is_gate [content_type, Select CtxDone] = [Select CtxDone]"
proof (intro conjI impI)
  assume a: "cap g \<le> held g \<or> odd pick"
  have "select_gate pick g (ctx_done r) = CtxDone"
  proof (cases "cap g \<le> held g")
    case True
    then show ?thesis using assms(3) by (simp add: select_gate_full_done)
  next
    case False
    with a have "held g < cap g" and "odd pick" by auto
    then show ?thesis using assms(3) by (simp add: select_gate_race)
  qed
  then show "handleRequest e apiKey pick r g = ([content_type, Select CtxDone], g)"
    by (rule handleRequest_abandoned [OF assms(1,2)])
next
  assume a: "held g < cap g \<and> even pick"
  let ?h = "Get (query r) ''host''" and ?m = "select_method (Get (query r) ''method'')"
  have sel: "select_gate pick g (ctx_done r) = SendSlot"
    using a assms(3) by (simp add: select_gate_race)
  obtain pevs result err where x: "execute e (ctx_done r) ?m ?h = (pevs, result, err)"
    by (metis prod_cases3)
  have p: "pevs = [] \<or> (\<exists>ev. pevs = [ev] \<and> is_probe ev)"
    using execute_events [of e "ctx_done r" ?m ?h] x by simp
  note H = handleRequest_admitted [OF assms(1,2) sel x]
  show "filter is_gate (fst (handleRequest e apiKey pick r g)) = [Select SendSlot, Release]"
    by (simp add: H probe_events_silent(3) [OF p])
  show "status_of (fst (handleRequest e apiKey pick r g)) = Some 200"
    by (simp add: H probe_events_silent(1) [OF p])
  show "snd (handleRequest e apiKey pick r g) = g"
    by (simp add: H)
qed simp_all

theorem cancelled_at_gate_witness:
  "Get (query (req [(''host'', ''192.0.2.1'')] True)) ''host'' \<noteq> [] \<and>
   ctx_done (req [(''host'', ''192.0.2.1'')] True) \<and>
   cap \<lparr>cap = 2, held = 2\<rparr> \<le> held \<lparr>cap = 2, held = 2\<rparr> \<and>
   handleRequest down_env [] 0 (req [(''host'', ''192.0.2.1'')] True) \<lparr>cap = 2, held = 2\<rparr>
     = ([content_type, Select CtxDone], \<lparr>cap = 2, held = 2\<rparr>) \<and>
   held \<lparr>cap = 2, held = 1\<rparr> < cap \<lparr>cap = 2, held = 1\<rparr> \<and> even (0::nat) \<and>
   filter is_gate (fst (handleRequest down_env [] 0 (req [(''host'', ''192.0.2.1'')] True)
     \<lparr>cap = 2, held = 1\<rparr>)) = [Select SendSlot, Release]"
  using cancelled_at_gate [of "[]" "req [(''host'', ''192.0.2.1'')] True" "\<lparr>cap = 2, held = 2\<rparr>"
      0 down_env]
    cancelled_at_gate [of "[]" "req [(''host'', ''192.0.2.1'')] True" "\<lparr>cap = 2, held = 1\<rparr>"
      0 down_env]
  by (simp add: req_def values_of_def Get_def)

end
